theory Spec2Isabelle
  imports Complex_Main "HOL-Library.Sublist"
begin

section \<open>Texts\<close>

text \<open>
  The program is \<^verbatim>\<open>src/main.py\<close>, class \<^verbatim>\<open>DocumentIntelligenceSystem\<close>.
  A Python \<^verbatim>\<open>str\<close> is modelled as a \<^typ>\<open>string\<close>; each \<^typ>\<open>char\<close> stands for one
  code point, so the model covers texts whose code points lie below 256, and
  \<^const>\<open>length\<close> is Python's \<^verbatim>\<open>len\<close>. The character classes below are Python's
  Unicode classes restricted to that range.
\<close>

definition in_range :: "nat \<Rightarrow> nat \<Rightarrow> char \<Rightarrow> bool" where
  "in_range lo hi c \<longleftrightarrow> lo \<le> of_char c \<and> (of_char c :: nat) \<le> hi"

text \<open>\<^verbatim>\<open>str.isspace\<close>, which is also the class \<^verbatim>\<open>\s\<close> of \<^verbatim>\<open>re\<close> on \<^verbatim>\<open>str\<close> patterns.\<close>

definition is_space :: "char \<Rightarrow> bool" where
  "is_space c \<longleftrightarrow> c \<in> set [CHR 0x09, CHR 0x0A, CHR 0x0B, CHR 0x0C, CHR 0x0D,
      CHR 0x1C, CHR 0x1D, CHR 0x1E, CHR 0x1F, CHR 0x20, CHR 0x85, CHR 0xA0]"

text \<open>The class \<^verbatim>\<open>\d\<close>: the decimal digits (below 256 these are \<^verbatim>\<open>0-9\<close>).\<close>

definition is_digit :: "char \<Rightarrow> bool" where
  "is_digit c \<longleftrightarrow> in_range 48 57 c"

definition is_ascii_upper :: "char \<Rightarrow> bool" where
  "is_ascii_upper c \<longleftrightarrow> in_range 65 90 c"

definition is_ascii_lower :: "char \<Rightarrow> bool" where
  "is_ascii_lower c \<longleftrightarrow> in_range 97 122 c"

definition is_ascii_alpha :: "char \<Rightarrow> bool" where
  "is_ascii_alpha c \<longleftrightarrow> is_ascii_upper c \<or> is_ascii_lower c"

text \<open>
  The class \<^verbatim>\<open>\w\<close>: alphanumeric code points and the underscore. Below 256 the
  alphanumeric ones are the ASCII letters and digits, the ordinal indicators, the micro
  sign, the superscript digits, the vulgar fractions and the accented Latin letters.
\<close>

definition is_word :: "char \<Rightarrow> bool" where
  "is_word c \<longleftrightarrow> is_ascii_alpha c \<or> is_digit c \<or> c = CHR ''_''
     \<or> c \<in> set [CHR 0xAA, CHR 0xB2, CHR 0xB3, CHR 0xB5, CHR 0xB9, CHR 0xBA,
                 CHR 0xBC, CHR 0xBD, CHR 0xBE]
     \<or> in_range 192 214 c \<or> in_range 216 246 c \<or> in_range 248 255 c"

text \<open>\<^verbatim>\<open>str.lower\<close>, character by character: the upper-case letters and their images.\<close>

definition upper_letters :: "char list" where
  "upper_letters = ''ABCDEFGHIJKLMNOPQRSTUVWXYZ'' @
     [CHR 0xC0, CHR 0xC1, CHR 0xC2, CHR 0xC3, CHR 0xC4, CHR 0xC5, CHR 0xC6, CHR 0xC7,
      CHR 0xC8, CHR 0xC9, CHR 0xCA, CHR 0xCB, CHR 0xCC, CHR 0xCD, CHR 0xCE, CHR 0xCF,
      CHR 0xD0, CHR 0xD1, CHR 0xD2, CHR 0xD3, CHR 0xD4, CHR 0xD5, CHR 0xD6,
      CHR 0xD8, CHR 0xD9, CHR 0xDA, CHR 0xDB, CHR 0xDC, CHR 0xDD, CHR 0xDE]"

definition lower_letters :: "char list" where
  "lower_letters = ''abcdefghijklmnopqrstuvwxyz'' @
     [CHR 0xE0, CHR 0xE1, CHR 0xE2, CHR 0xE3, CHR 0xE4, CHR 0xE5, CHR 0xE6, CHR 0xE7,
      CHR 0xE8, CHR 0xE9, CHR 0xEA, CHR 0xEB, CHR 0xEC, CHR 0xED, CHR 0xEE, CHR 0xEF,
      CHR 0xF0, CHR 0xF1, CHR 0xF2, CHR 0xF3, CHR 0xF4, CHR 0xF5, CHR 0xF6,
      CHR 0xF8, CHR 0xF9, CHR 0xFA, CHR 0xFB, CHR 0xFC, CHR 0xFD, CHR 0xFE]"

definition lower_char :: "char \<Rightarrow> char" where
  "lower_char c = (case map_of (zip upper_letters lower_letters) c of
                     None \<Rightarrow> c | Some d \<Rightarrow> d)"

definition lower :: "string \<Rightarrow> string" where
  "lower s = map lower_char s"

text \<open>\<^verbatim>\<open>str.strip()\<close> with no argument removes white space at both ends.\<close>

definition strip :: "string \<Rightarrow> string" where
  "strip s = rev (dropWhile is_space (rev (dropWhile is_space s)))"

text \<open>The operator \<^verbatim>\<open>sub in s\<close> on strings: \<open>sub\<close> occurs in \<open>s\<close> as a contiguous run.\<close>

fun py_in :: "string \<Rightarrow> string \<Rightarrow> bool" where
  "py_in sub [] = (sub = [])"
| "py_in sub (c # cs) = (prefix sub (c # cs) \<or> py_in sub cs)"

text \<open>
  \<^verbatim>\<open>s.split(sep)\<close> for a non-empty separator: the pieces between the occurrences of
  \<open>sep\<close>, found from the left without overlap. \<open>acc\<close> holds the current piece reversed.
  (The program's only separator is the literal of two newlines; the empty separator, on
  which Python raises, does not occur.)
\<close>

function split_from :: "string \<Rightarrow> string \<Rightarrow> string \<Rightarrow> string list" where
  "split_from sep acc [] = [rev acc]"
| "split_from sep acc (c # cs) =
     (if sep \<noteq> [] \<and> prefix sep (c # cs)
      then rev acc # split_from sep [] (drop (length sep) (c # cs))
      else split_from sep (c # acc) cs)"
  by pat_completeness auto
termination
  by (relation "measure (\<lambda>(sep, acc, s). length s)") (auto simp: neq_Nil_conv)

definition py_split :: "string \<Rightarrow> string \<Rightarrow> string list" where
  "py_split s sep = split_from sep [] s"

text \<open>\<^verbatim>\<open>str(n)\<close> for a non-negative integer: its decimal digits.\<close>

definition digit_char :: "nat \<Rightarrow> char" where
  "digit_char d = ''0123456789'' ! d"

function str_nat :: "nat \<Rightarrow> string" where
  "str_nat n = (if n < 10 then [digit_char n] else str_nat (n div 10) @ [digit_char (n mod 10)])"
  by pat_completeness auto
termination
  by (relation "measure id") auto

declare str_nat.simps [simp del]

section \<open>Regular expressions\<close>

text \<open>
  The fragment of \<^verbatim>\<open>re\<close> that the program's patterns use, with the matcher's backtracking
  order: a repetition is greedy and ranges over a character class (every repetition in
  the program does), \<open>Alt\<close> tries its left branch first, \<open>Grp\<close> is capturing group 1.
  \<open>Bol\<close> is \<^verbatim>\<open>^\<close> under \<^verbatim>\<open>re.MULTILINE\<close>; \<open>Wordb\<close> is \<^verbatim>\<open>\b\<close>. Under \<^verbatim>\<open>re.IGNORECASE\<close> the
  classes are written out with both cases.
\<close>

datatype rx =
    Eps
  | Cls "char \<Rightarrow> bool"
  | Bol
  | Wordb
  | Rep "char \<Rightarrow> bool" nat "nat option"
  | Cat rx rx
  | Alt rx rx
  | Grp rx

text \<open>A matcher state: the current offset in the text and the span of group 1, if set.\<close>

type_synonym mstate = "nat \<times> (nat \<times> nat) option"

definition newline :: char where
  "newline = CHR 0x0A"

text \<open>
  \<open>rx_run r t st\<close> lists the states in which \<open>r\<close> can finish when started on text \<open>t\<close> in
  state \<open>st\<close>, in the order in which the backtracking matcher tries them.
\<close>

primrec rx_run :: "rx \<Rightarrow> string \<Rightarrow> mstate \<Rightarrow> mstate list" where
  "rx_run Eps t st = [st]"
| "rx_run (Cls P) t st =
     (if fst st < length t \<and> P (t ! fst st) then [(Suc (fst st), snd st)] else [])"
| "rx_run Bol t st =
     (if fst st = 0 \<or> (fst st \<le> length t \<and> t ! (fst st - 1) = newline) then [st] else [])"
| "rx_run Wordb t st =
     (let word_left = (0 < fst st \<and> fst st \<le> length t \<and> is_word (t ! (fst st - 1)));
          word_right = (fst st < length t \<and> is_word (t ! fst st))
      in if word_left \<noteq> word_right then [st] else [])"
| "rx_run (Rep P lo hi) t st =
     (let avail = length (takeWhile P (drop (fst st) t));
          n = (case hi of None \<Rightarrow> avail | Some h \<Rightarrow> min h avail)
      in if n < lo then [] else map (\<lambda>k. (fst st + k, snd st)) (rev [lo..<Suc n]))"
| "rx_run (Cat r1 r2) t st = concat (map (rx_run r2 t) (rx_run r1 t st))"
| "rx_run (Alt r1 r2) t st = rx_run r1 t st @ rx_run r2 t st"
| "rx_run (Grp r) t st = map (\<lambda>st'. (fst st', Some (fst st, fst st'))) (rx_run r t st)"

text \<open>The match found at a given start offset: the first state the matcher reaches.\<close>

definition match_at :: "rx \<Rightarrow> string \<Rightarrow> nat \<Rightarrow> mstate option" where
  "match_at r t s = (case rx_run r t (s, None) of [] \<Rightarrow> None | st # _ \<Rightarrow> Some st)"

text \<open>
  \<^verbatim>\<open>re.finditer\<close>: the matches from the left, without overlap, each as start offset, end
  offset and span of group 1. After a match the scan resumes at its end. (None of the
  program's patterns matches the empty string; after an empty match the model moves one
  character on.)
\<close>

function finditer_from :: "rx \<Rightarrow> string \<Rightarrow> nat \<Rightarrow> (nat \<times> nat \<times> (nat \<times> nat) option) list" where
  "finditer_from r t s =
     (if length t < s then []
      else case match_at r t s of
             None \<Rightarrow> finditer_from r t (Suc s)
           | Some st \<Rightarrow> (s, fst st, snd st) # finditer_from r t (if s < fst st then fst st else Suc s))"
  by pat_completeness auto
termination
  by (relation "measure (\<lambda>(r, t, s). Suc (length t) - s)") auto

declare finditer_from.simps [simp del]

definition finditer :: "rx \<Rightarrow> string \<Rightarrow> (nat \<times> nat \<times> (nat \<times> nat) option) list" where
  "finditer r t = finditer_from r t 0"

text \<open>\<^verbatim>\<open>t[i:j]\<close> for offsets \<open>0 \<le> i\<close>, \<open>0 \<le> j\<close>.\<close>

definition slice :: "string \<Rightarrow> nat \<Rightarrow> nat \<Rightarrow> string" where
  "slice t i j = take (j - i) (drop i t)"

text \<open>
  \<^verbatim>\<open>re.sub(r, repl, t)\<close> for a replacement without group references: the text with
  every match replaced. \<open>cur\<close> is the offset up to which the text has been copied.
\<close>

fun subst_spans :: "string \<Rightarrow> string \<Rightarrow> nat \<Rightarrow> (nat \<times> nat \<times> (nat \<times> nat) option) list \<Rightarrow> string" where
  "subst_spans t repl cur [] = drop cur t"
| "subst_spans t repl cur ((s, e, g) # ms) = slice t cur s @ repl @ subst_spans t repl e ms"

definition re_sub :: "rx \<Rightarrow> string \<Rightarrow> string \<Rightarrow> string" where
  "re_sub r repl t = subst_spans t repl 0 (finditer r t)"

text \<open>A literal string under \<^verbatim>\<open>re.IGNORECASE\<close>, and alternation over a list of branches.\<close>

definition ci :: "char \<Rightarrow> char \<Rightarrow> bool" where
  "ci l c \<longleftrightarrow> lower_char c = lower_char l"

fun lit_ci :: "string \<Rightarrow> rx" where
  "lit_ci [] = Eps"
| "lit_ci (c # cs) = Cat (Cls (ci c)) (lit_ci cs)"

fun alts :: "rx \<Rightarrow> rx list \<Rightarrow> rx" where
  "alts r [] = r"
| "alts r (r' # rs) = Alt r (alts r' rs)"

section \<open>Section Segmenter\<close>

text \<open>A section as the segmenter creates it (the dictionary built in \<^verbatim>\<open>_split_into_sections\<close>).\<close>

record Section =
  document :: string
  page_number :: int
  section_title :: string
  section_text :: string

definition nl :: rx where
  "nl = Cls (\<lambda>c. c = newline)"

definition line_start :: rx where
  "line_start = Alt Bol nl"

definition not_terminator :: "char \<Rightarrow> bool" where
  "not_terminator c \<longleftrightarrow> c \<notin> set ''.!?''"

text \<open>
  The four heading patterns of \<^verbatim>\<open>section_patterns\<close>, compiled with
  \<^verbatim>\<open>re.IGNORECASE | re.MULTILINE\<close>, so \<^verbatim>\<open>[A-Z]\<close> admits both cases.
\<close>

definition all_caps_pattern :: rx where
  "all_caps_pattern =
     Cat (Cat line_start
            (Grp (Cat (Cls is_ascii_alpha)
                      (Rep (\<lambda>c. is_ascii_alpha c \<or> is_space c) 2 (Some 50)))))
         nl"

definition numbered_pattern :: rx where
  "numbered_pattern =
     Cat (Cat line_start
            (Grp (Cat (Rep is_digit 1 None)
                 (Cat (Rep (\<lambda>c. c = CHR ''.'') 0 (Some 1))
                 (Cat (Rep is_space 1 None)
                 (Cat (Cls is_ascii_alpha)
                      (Rep not_terminator 0 None)))))))
         nl"

definition optional_s :: "string \<Rightarrow> rx" where
  "optional_s w = Cat (lit_ci w) (Rep (ci CHR ''s'') 0 (Some 1))"

definition keyword_pattern :: rx where
  "keyword_pattern =
     Cat (Cat (Cat line_start
            (Grp (alts (lit_ci ''Abstract'')
               [lit_ci ''Introduction'', optional_s ''Method'', optional_s ''Result'',
                lit_ci ''Discussion'', lit_ci ''Conclusion'', lit_ci ''References'',
                lit_ci ''Background'', lit_ci ''Related Work'', optional_s ''Experiment''])))
            (Rep (\<lambda>c. c = CHR ''.'' \<or> is_space c) 0 None))
         nl"

definition roman_pattern :: rx where
  "roman_pattern =
     Cat (Cat line_start
            (Grp (Cat (Rep (\<lambda>c. c \<in> set ''IVXivx'') 1 None)
                 (Cat (Cls (\<lambda>c. c = CHR ''.''))
                 (Cat (Rep is_space 1 None)
                 (Cat (Cls is_ascii_alpha)
                      (Rep not_terminator 0 None)))))))
         nl"

definition section_patterns :: "rx list" where
  "section_patterns = [all_caps_pattern, numbered_pattern, keyword_pattern, roman_pattern]"

text \<open>The pattern \<^verbatim>\<open>\s+\<close> and the normalisation \<^verbatim>\<open>re.sub(r'\s+', ' ', text).strip()\<close>.\<close>

definition whitespace_run :: rx where
  "whitespace_run = Rep is_space 1 None"

definition normalize_text :: "string \<Rightarrow> string" where
  "normalize_text t = strip (re_sub whitespace_run '' '' t)"

text \<open>
  \<^verbatim>\<open>match.group(1)\<close>. Every heading pattern passes through its group, so the group is
  always set on a match.
\<close>

definition group1 :: "string \<Rightarrow> nat \<times> nat \<times> (nat \<times> nat) option \<Rightarrow> string" where
  "group1 t m = (case snd (snd m) of None \<Rightarrow> [] | Some (a, b) \<Rightarrow> slice t a b)"

text \<open>The pooled matches, \<^verbatim>\<open>(match.start(), match.group(1).strip())\<close>, sorted by offset.\<close>

definition find_boundaries :: "string \<Rightarrow> (nat \<times> string) list" where
  "find_boundaries t =
     sort_key fst
       (concat (map (\<lambda>p. map (\<lambda>m. (fst m, strip (group1 t m))) (finditer p t)) section_patterns))"

definition mk_section :: "int \<Rightarrow> string \<Rightarrow> string \<Rightarrow> Section" where
  "mk_section page_num title body =
     \<lparr>document = ''placeholder'', page_number = page_num, section_title = title,
      section_text = body\<rparr>"

text \<open>\<^verbatim>\<open>_split_by_paragraphs\<close>.\<close>

definition split_by_paragraphs :: "string \<Rightarrow> int \<Rightarrow> Section list" where
  "split_by_paragraphs t page_num =
     (let paragraphs = map strip (filter (\<lambda>p. 100 < length (strip p))
                                    (py_split t [newline, newline]))
      in map (\<lambda>(i, para). mk_section page_num (''Section '' @ str_nat (i + 1)) para)
           (enumerate 0 (take 5 paragraphs)))"

text \<open>
  The loop over the boundaries and the final section of \<^verbatim>\<open>_split_into_sections\<close>:
  \<open>current\<close> is \<^verbatim>\<open>current_section\<close>, \<open>start\<close> is \<^verbatim>\<open>start_pos\<close>.
\<close>

fun walk_boundaries :: "string \<Rightarrow> int \<Rightarrow> string \<Rightarrow> nat \<Rightarrow> (nat \<times> string) list \<Rightarrow> Section list" where
  "walk_boundaries t page_num current start [] =
     (let final_text = strip (drop start t)
      in if 100 < length final_text then [mk_section page_num current final_text] else [])"
| "walk_boundaries t page_num current start ((pos, title) # bs) =
     (if start < pos \<and> 100 < length (strip (slice t start pos))
      then [mk_section page_num current (strip (slice t start pos))] else [])
     @ walk_boundaries t page_num title pos bs"

text \<open>\<^verbatim>\<open>_split_into_sections\<close>.\<close>

definition split_into_sections :: "string \<Rightarrow> int \<Rightarrow> Section list" where
  "split_into_sections raw page_num =
     (let t = normalize_text raw;
          boundaries = find_boundaries t
      in if boundaries = [] then split_by_paragraphs t page_num
         else let sections = walk_boundaries t page_num ''Introduction'' 0 boundaries
              in if sections \<noteq> [] then sections else split_by_paragraphs t page_num)"

section \<open>Relevance Ranker\<close>

text \<open>
  A persona is a dictionary read with \<^verbatim>\<open>persona.get(key, default)\<close>: a field is
  \<open>None\<close> when its key is absent.
\<close>

record Persona =
  role :: "string option"
  expertise :: "string option"
  focus_areas :: "string list option"

definition get_default :: "'a option \<Rightarrow> 'a \<Rightarrow> 'a" where
  "get_default field d = (case field of None \<Rightarrow> d | Some v \<Rightarrow> v)"

text \<open>\<^verbatim>\<open>sep.join(xs)\<close>.\<close>

fun join :: "string \<Rightarrow> string list \<Rightarrow> string" where
  "join sep [] = []"
| "join sep [x] = x"
| "join sep (x # y # ys) = x @ sep @ join sep (y # ys)"

definition travel_keywords :: "string list" where
  "travel_keywords = [''itinerary'', ''activities'', ''attractions'', ''restaurants'', ''hotels'',
     ''transportation'', ''budget'', ''schedule'']"

text \<open>The query string of \<^verbatim>\<open>rank_sections_by_relevance\<close> (its lines before the corpus is built).\<close>

definition build_query :: "Persona \<Rightarrow> string \<Rightarrow> string" where
  "build_query persona job_description =
     (let persona_role = get_default (role persona) [];
          persona_expertise = get_default (expertise persona) [];
          persona_focus = join '' '' (get_default (focus_areas persona) []);
          persona_expertise =
            (if py_in ''travel'' (lower persona_role) \<or> py_in ''planner'' (lower persona_role)
             then persona_expertise @ '' '' @ join '' '' travel_keywords
             else persona_expertise);
          persona_text = persona_role @ '' '' @ persona_expertise @ '' '' @ persona_focus
      in persona_text @ '' '' @ job_description)"

text \<open>
  The TF-IDF vectoriser and the cosine similarity are scikit-learn's, not this program's.
  They enter the model as a parameter: applied to the corpus (the section texts followed
  by the query) it gives \<open>Some\<close> of the similarities of the query to the sections, or
  \<open>None\<close> when the library raises. Python's floats are modelled by exact reals.
\<close>

type_synonym vectorizer = "string list \<Rightarrow> real list option"

definition travel_boost_terms :: "string list" where
  "travel_boost_terms = [''restaurant'', ''hotel'', ''attraction'', ''activity'', ''food'',
     ''culture'', ''history'', ''city'', ''place'', ''visit'', ''trip'', ''travel'']"

definition group_boost_terms :: "string list" where
  "group_boost_terms = [''group'', ''friends'', ''college'', ''young'', ''budget'',
     ''affordable'', ''student'']"

definition title_boost_terms :: "string list" where
  "title_boost_terms = [''restaurant'', ''hotel'', ''activity'', ''attraction'',
     ''thing to do'', ''tip'']"

text \<open>The boost of one section: the two loops over the term lists and the title test.\<close>

definition boost_of :: "Section \<Rightarrow> real" where
  "boost_of s =
     (let section_lower = lower (section_text s);
          boost = foldl (\<lambda>b term. if py_in term section_lower then b + 0.1 else b)
                    0 travel_boost_terms;
          boost = foldl (\<lambda>b term. if py_in term section_lower then b + 0.05 else b)
                    boost group_boost_terms;
          title_lower = lower (section_title s)
      in if list_ex (\<lambda>term. py_in term title_lower) title_boost_terms
         then boost + 0.2 else boost)"

definition final_score :: "real \<Rightarrow> Section \<Rightarrow> real" where
  "final_score base_score s = base_score + boost_of s"

text \<open>
  A section after ranking: the same dictionary with its two new keys. Sections are
  values here: each position of the list holds a dictionary of its own, as the segmenter
  creates them.
\<close>

record Ranked = Section +
  relevance_score :: real
  importance_rank :: nat

definition annotate :: "Section \<Rightarrow> real \<Rightarrow> nat \<Rightarrow> Ranked" where
  "annotate s score rnk =
     \<lparr>document = document s, page_number = page_number s, section_title = section_title s,
      section_text = section_text s, relevance_score = score, importance_rank = rnk\<rparr>"

text \<open>The scoring loop; the rank is set to 0 until the sort.\<close>

definition score_sections :: "real list \<Rightarrow> Section list \<Rightarrow> Ranked list" where
  "score_sections similarities sections =
     map (\<lambda>(i, s). annotate s (final_score (similarities ! i) s) 0) (enumerate 0 sections)"

text \<open>
  \<^verbatim>\<open>sections.sort(key=lambda x: x['relevance_score'], reverse=True)\<close>: Python's sort is
  stable, also with \<^verbatim>\<open>reverse=True\<close>, so it is the stable sort on the negated key.
\<close>

definition sort_by_relevance :: "Ranked list \<Rightarrow> Ranked list" where
  "sort_by_relevance xs = sort_key (\<lambda>s. - relevance_score s) xs"

definition assign_ranks :: "Ranked list \<Rightarrow> Ranked list" where
  "assign_ranks xs = map (\<lambda>(i, s). s\<lparr>importance_rank := i + 1\<rparr>) (enumerate 0 xs)"

text \<open>The \<^verbatim>\<open>except\<close> branch: sequential scores and ranks in the order of the input.\<close>

definition fallback_ranks :: "Section list \<Rightarrow> Ranked list" where
  "fallback_ranks sections =
     map (\<lambda>(i, s). annotate s (1 / real (i + 1)) (i + 1)) (enumerate 0 sections)"

text \<open>
  The \<^verbatim>\<open>try\<close> statement of \<^verbatim>\<open>rank_sections_by_relevance\<close>. Inside the \<^verbatim>\<open>try\<close>, the
  library may raise, and so does \<^verbatim>\<open>similarities[i]\<close> if the library returned fewer
  similarities than there are sections; both reach the \<^verbatim>\<open>except\<close> branch.
\<close>

definition rank_or_fallback :: "vectorizer \<Rightarrow> Section list \<Rightarrow> string \<Rightarrow> Ranked list" where
  "rank_or_fallback vec sections query =
     (let all_texts = map section_text sections @ [query]
      in case vec all_texts of
           None \<Rightarrow> fallback_ranks sections
         | Some similarities \<Rightarrow>
             if length similarities < length sections
             then fallback_ranks sections
             else assign_ranks (sort_by_relevance (score_sections similarities sections)))"

text \<open>\<^verbatim>\<open>rank_sections_by_relevance\<close>.\<close>

definition rank_sections_by_relevance ::
    "vectorizer \<Rightarrow> Section list \<Rightarrow> Persona \<Rightarrow> string \<Rightarrow> Ranked list" where
  "rank_sections_by_relevance vec sections persona job_description =
     (if sections = [] then []
      else let query = build_query persona job_description
           in take 15 (rank_or_fallback vec sections query))"

section \<open>Section Refiner\<close>

text \<open>\<^verbatim>\<open>re.findall\<close> and \<^verbatim>\<open>re.split\<close> for patterns without groups.\<close>

definition findall :: "rx \<Rightarrow> string \<Rightarrow> string list" where
  "findall r t = map (\<lambda>m. slice t (fst m) (fst (snd m))) (finditer r t)"

fun split_spans :: "string \<Rightarrow> nat \<Rightarrow> (nat \<times> nat \<times> (nat \<times> nat) option) list \<Rightarrow> string list" where
  "split_spans t cur [] = [drop cur t]"
| "split_spans t cur ((s, e, g) # ms) = slice t cur s # split_spans t e ms"

definition re_split :: "rx \<Rightarrow> string \<Rightarrow> string list" where
  "re_split r t = split_spans t 0 (finditer r t)"

text \<open>The patterns \<^verbatim>\<open>\b[a-zA-Z]{4,}\b\<close> and \<^verbatim>\<open>[.!?]+\<close> (no flags).\<close>

definition job_term_pattern :: rx where
  "job_term_pattern = Cat (Cat Wordb (Rep is_ascii_alpha 4 None)) Wordb"

definition sentence_end_pattern :: rx where
  "sentence_end_pattern = Rep (\<lambda>c. c \<in> set ''.!?'') 1 None"

text \<open>The keyword set of the job description; the set is kept as a list without repeats.\<close>

definition job_terms :: "string \<Rightarrow> string list" where
  "job_terms job_description = remdups (findall job_term_pattern (lower job_description))"

definition sentences_of :: "string \<Rightarrow> string list" where
  "sentences_of t =
     map strip (filter (\<lambda>s. 20 < length (strip s)) (re_split sentence_end_pattern t))"

definition sentence_score :: "string list \<Rightarrow> string \<Rightarrow> nat" where
  "sentence_score terms sentence =
     length (filter (\<lambda>term. py_in term (lower sentence)) terms)"

text \<open>The body of the loop of \<^verbatim>\<open>refine_sections\<close> up to \<^verbatim>\<open>refined_text\<close>.\<close>

definition top_sentences :: "string list \<Rightarrow> string \<Rightarrow> string list" where
  "top_sentences terms t =
     (let sentences = sentences_of t;
          scored_sentences = map (\<lambda>sentence. (sentence_score terms sentence, sentence)) sentences;
          scored_sentences = sort_key (\<lambda>x. - int (fst x)) scored_sentences;
          top = map snd (take 3 scored_sentences)
      in if top = [] \<and> sentences \<noteq> [] then take 2 sentences else top)"

definition refined_text_of :: "string list \<Rightarrow> string \<Rightarrow> string" where
  "refined_text_of terms t =
     (let refined_text = join ''. '' (top_sentences terms t)
      in if suffix ''.'' refined_text then refined_text else refined_text @ ''.'')"

record RefinedSection =
  document :: string
  page_number :: int
  section_title :: string
  refined_text :: string
  importance_rank :: nat

definition refine_sections :: "Ranked list \<Rightarrow> string \<Rightarrow> RefinedSection list" where
  "refine_sections sections job_description =
     (let terms = job_terms job_description
      in map (\<lambda>s. \<lparr>RefinedSection.document = Section.document s,
                    page_number = Section.page_number s,
                    section_title = Section.section_title s,
                    refined_text = refined_text_of terms (section_text s),
                    importance_rank = Ranked.importance_rank s\<rparr>) sections)"

section \<open>Pipeline Orchestrator\<close>

text \<open>
  \<^verbatim>\<open>extract_text_from_pdf\<close>. Reading the PDF is pdfplumber's work: \<open>pages\<close> are the page
  texts it delivers before it ends or fails (\<open>None\<close> for a page without text); a failure
  is caught and keeps the sections made so far. \<^verbatim>\<open>os.path.basename\<close> is taken on POSIX
  paths.
\<close>

definition basename :: "string \<Rightarrow> string" where
  "basename path = rev (takeWhile (\<lambda>c. c \<noteq> CHR ''/'') (rev path))"

definition extract_text_from_pdf :: "string option list \<Rightarrow> string \<Rightarrow> Section list" where
  "extract_text_from_pdf pages pdf_path =
     concat (map (\<lambda>(page_num, page_text).
                    case page_text of
                      None \<Rightarrow> []
                    | Some t \<Rightarrow>
                        if t \<noteq> [] \<and> 50 < length (strip t)
                        then map (\<lambda>s. s\<lparr>Section.document := basename pdf_path\<rparr>)
                               (split_into_sections t (int page_num))
                        else [])
              (enumerate 1 pages))"

text \<open>
  A value read by \<^verbatim>\<open>json.load\<close>; an object is the list of its entries (keys distinct),
  and numbers are taken as integers.
\<close>

datatype json =
    JNull
  | JBool bool
  | JNum int
  | JStr string
  | JArr "json list"
  | JObj "(string \<times> json) list"

text \<open>Python's truth value of such a value, as tested by \<^verbatim>\<open>if challenge_info:\<close>.\<close>

fun truthy :: "json \<Rightarrow> bool" where
  "truthy JNull = False"
| "truthy (JBool b) = b"
| "truthy (JNum n) = (n \<noteq> 0)"
| "truthy (JStr s) = (s \<noteq> [])"
| "truthy (JArr xs) = (xs \<noteq> [])"
| "truthy (JObj kvs) = (kvs \<noteq> [])"

text \<open>The exceptions that the configuration handling and the refiner can raise.\<close>

datatype error =
    KeyError string
  | AttributeError string

text \<open>
  The loaded configuration. Its required keys are present, \<^verbatim>\<open>documents\<close> is a list of
  paths and \<^verbatim>\<open>persona\<close> an object of strings; \<^verbatim>\<open>job_to_be_done\<close> is kept as the
  value it is, since the program inspects its shape, and \<^verbatim>\<open>challenge_info\<close> is \<open>None\<close>
  when the key is absent.
\<close>

record Config =
  documents :: "string list"
  persona :: Persona
  job_to_be_done :: json
  challenge_info :: "json option"

text \<open>The job description as \<^verbatim>\<open>process_documents\<close> takes it from the configuration.\<close>

definition resolve_job :: "Config \<Rightarrow> error + json" where
  "resolve_job config =
     (if challenge_info config \<noteq> None
      then (case job_to_be_done config of
              JObj entries \<Rightarrow>
                (case map_of entries ''task'' of
                   None \<Rightarrow> Inl (KeyError ''task'')
                 | Some task \<Rightarrow> Inr task)
            | v \<Rightarrow> Inr v)
      else Inr (job_to_be_done config))"

record ExtractedSection =
  document :: string
  page_number :: int
  section_title :: string
  importance_rank :: nat

text \<open>
  The result of \<^verbatim>\<open>process_documents\<close>, without its time stamp and its processing time.
\<close>

record Metadata =
  input_documents :: "string list"
  persona :: Persona
  job_to_be_done :: json
  challenge_info :: "json option"
  error :: "error option"

record Output =
  metadata :: Metadata
  extracted_sections :: "ExtractedSection list"
  sub_section_analysis :: "RefinedSection list"

definition error_output :: "error \<Rightarrow> Output" where
  "error_output e =
     \<lparr>metadata = \<lparr>input_documents = [],
                  persona = \<lparr>role = None, expertise = None, focus_areas = None\<rparr>,
                  job_to_be_done = JStr [],
                  challenge_info = None,
                  error = Some e\<rparr>,
      extracted_sections = [],
      sub_section_analysis = []\<rparr>"

text \<open>
  \<^verbatim>\<open>refine_sections\<close> as the orchestrator calls it, with the job description it resolved:
  \<^verbatim>\<open>job_description.lower()\<close> is the first thing evaluated, and raises unless the value
  is a string.
\<close>

definition refine_resolved :: "Ranked list \<Rightarrow> json \<Rightarrow> error + RefinedSection list" where
  "refine_resolved sections job =
     (case job of
        JStr job_description \<Rightarrow> Inr (refine_sections sections job_description)
      | _ \<Rightarrow> Inl (AttributeError ''lower''))"

text \<open>
  The ranker as the orchestrator calls it: the query is an f-string, which formats a
  value that is not a string with \<^verbatim>\<open>str\<close>; \<open>py_str\<close> stands for that rendering.
\<close>

definition rank_resolved ::
    "vectorizer \<Rightarrow> (json \<Rightarrow> string) \<Rightarrow> Section list \<Rightarrow> Persona \<Rightarrow> json \<Rightarrow> Ranked list" where
  "rank_resolved vec py_str sections p job =
     rank_sections_by_relevance vec sections p
       (case job of JStr job_description \<Rightarrow> job_description | v \<Rightarrow> py_str v)"

text \<open>
  \<^verbatim>\<open>process_documents\<close>. \<open>fs path\<close> is \<open>None\<close> when \<^verbatim>\<open>os.path.exists(path)\<close> is false, and
  the pages of the PDF otherwise. Every exception ends in \<^const>\<open>error_output\<close>.
\<close>

definition process_documents ::
    "(string \<Rightarrow> string option list option) \<Rightarrow> vectorizer \<Rightarrow> (json \<Rightarrow> string) \<Rightarrow> Config \<Rightarrow> Output" where
  "process_documents fs vec py_str config =
     (case resolve_job config of
        Inl e \<Rightarrow> error_output e
      | Inr job_description \<Rightarrow>
          let all_sections =
                concat (map (\<lambda>doc_path. case fs doc_path of
                                           None \<Rightarrow> []
                                         | Some pages \<Rightarrow> extract_text_from_pdf pages doc_path)
                          (Config.documents config));
              processed_docs =
                map basename (filter (\<lambda>doc_path. fs doc_path \<noteq> None) (Config.documents config));
              ranked_sections =
                rank_resolved vec py_str all_sections (Config.persona config) job_description
          in case refine_resolved ranked_sections job_description of
               Inl e \<Rightarrow> error_output e
             | Inr refined_sections \<Rightarrow>
                 \<lparr>metadata =
                    \<lparr>input_documents = processed_docs,
                     persona = Config.persona config,
                     job_to_be_done = job_description,
                     challenge_info =
                       (case Config.challenge_info config of
                          None \<Rightarrow> None
                        | Some info \<Rightarrow> if truthy info then Some info else None),
                     error = None\<rparr>,
                  extracted_sections =
                    map (\<lambda>s. \<lparr>ExtractedSection.document = Section.document s,
                                page_number = Section.page_number s,
                                section_title = Section.section_title s,
                                importance_rank = Ranked.importance_rank s\<rparr>) ranked_sections,
                  sub_section_analysis = refined_sections\<rparr>)"

section \<open>Example inputs\<close>

text \<open>A page with a heading line, and the same page after normalisation.\<close>

definition ex_page :: string where
  "ex_page = ''INTRODUCTION'' @ [newline] @
     ''This guide covers budget restaurants and hotels for young travelers on a trip. It is affordable and fun.''"

definition ex_normalized :: string where
  "ex_normalized =
     ''INTRODUCTION This guide covers budget restaurants and hotels for young travelers on a trip. It is affordable and fun.''"

text \<open>A text of two paragraphs, the second one short.\<close>

definition ex_paragraphs :: string where
  "ex_paragraphs = ex_normalized @ [newline, newline] @ ''A short closing note.''"

text \<open>
  Vectorisers: one on which the library raises, one for a corpus in which the query
  shares no term with any section, so that every similarity is 0, and one that gives
  three such similarities whatever the corpus.
\<close>

definition failing_vectorizer :: vectorizer where
  "failing_vectorizer texts = None"

definition zero_vectorizer :: vectorizer where
  "zero_vectorizer texts = Some (replicate (length texts - 1) 0)"


text \<open>Short sections and two personas.\<close>

definition ex_plain :: Section where
  "ex_plain = mk_section 1 ''Section 1'' ''plain words''"

definition ex_hotel :: Section where
  "ex_hotel = mk_section 2 ''Section 1'' ''a hotel''"


definition ex_other :: Section where
  "ex_other = mk_section 3 ''Section 1'' ''other words''"

definition ex_chef :: Persona where
  "ex_chef = \<lparr>role = Some ''Chef'', expertise = Some ''travel writer'', focus_areas = Some []\<rparr>"

definition ex_planner :: Persona where
  "ex_planner = \<lparr>role = Some ''Travel Planner'', expertise = Some [], focus_areas = Some []\<rparr>"


text \<open>A section text of three sentences that share no keyword with the job \<^verbatim>\<open>Plan a trip\<close>.\<close>

definition ex_guide :: string where
  "ex_guide = ''The museum opens early every morning. Tickets are sold at the main gate. Guided walks start from the old square.''"

text \<open>
  Two configurations with the job given as an object: without and with
  \<^verbatim>\<open>challenge_info\<close>.
\<close>

definition ex_config_old :: Config where
  "ex_config_old =
     \<lparr>documents = [], persona = ex_planner,
      job_to_be_done = JObj [(''task'', JStr ''Plan a trip'')],
      challenge_info = None\<rparr>"

definition ex_config_new :: Config where
  "ex_config_new =
     \<lparr>documents = [], persona = ex_planner,
      job_to_be_done = JObj [(''task'', JStr ''Plan a trip'')],
      challenge_info = Some (JObj [(''challenge_id'', JStr ''round_1b'')])\<rparr>"

section \<open>Properties of the segmenter\<close>

subsection \<open>No heading pattern matches a text without newlines\<close>

lemma rx_run_nl_empty:
  "newline \<notin> set t \<Longrightarrow> rx_run nl t st = []"
  by (auto simp: nl_def dest: nth_mem)

lemma rx_run_Cat_nl_empty:
  "newline \<notin> set t \<Longrightarrow> rx_run (Cat r nl) t st = []"
proof -
  assume "newline \<notin> set t"
  then have "map (rx_run nl t) xs = map (\<lambda>_. []) xs" for xs
    by (simp add: rx_run_nl_empty)
  then show ?thesis by simp
qed

lemma match_at_Cat_nl:
  "newline \<notin> set t \<Longrightarrow> match_at (Cat r nl) t s = None"
  by (simp add: match_at_def rx_run_Cat_nl_empty del: rx_run.simps)

lemma finditer_from_no_match:
  "(\<And>s'. match_at r t s' = None) \<Longrightarrow> finditer_from r t s = []"
proof (induction r t s rule: finditer_from.induct)
  case (1 r t s)
  then show ?case
    by (subst finditer_from.simps) simp
qed

lemma finditer_Cat_nl:
  "newline \<notin> set t \<Longrightarrow> finditer (Cat r nl) t = []"
  by (simp add: finditer_def finditer_from_no_match match_at_Cat_nl)

lemma find_boundaries_no_newline:
  "newline \<notin> set t \<Longrightarrow> find_boundaries t = []"
  by (simp add: find_boundaries_def section_patterns_def all_caps_pattern_def
      numbered_pattern_def keyword_pattern_def roman_pattern_def finditer_Cat_nl)


lemma set_drop_nth: "c \<in> set (drop i t) \<Longrightarrow> \<exists>k. i \<le> k \<and> k < length t \<and> c = t ! k"
  by (auto simp: in_set_conv_nth) (metis add.commute le_add2 less_diff_conv)

lemma set_slice_nth: "c \<in> set (slice t i j) \<Longrightarrow> \<exists>k. i \<le> k \<and> k < j \<and> k < length t \<and> c = t ! k"
  unfolding slice_def
  by (auto simp: in_set_conv_nth) (metis add.commute le_add2 less_diff_conv)

lemma takeWhile_drop_pos:
  "0 < length (takeWhile P (drop s t)) \<longleftrightarrow> s < length t \<and> P (t ! s)"
proof (cases "s < length t")
  case True
  then have "drop s t = t ! s # drop (Suc s) t" by (simp add: Cons_nth_drop_Suc)
  then show ?thesis using True by simp
next
  case False
  then show ?thesis by simp
qed

lemma match_at_whitespace_run:
  "match_at whitespace_run t s =
     (if s < length t \<and> is_space (t ! s)
      then Some (s + length (takeWhile is_space (drop s t)), None) else None)"
proof -
  let ?n = "length (takeWhile is_space (drop s t))"
  have pos: "0 < ?n \<longleftrightarrow> s < length t \<and> is_space (t ! s)"
    by (rule takeWhile_drop_pos)
  show ?thesis
  proof (cases "0 < ?n")
    case True
    then obtain m where m: "?n = Suc m" by (cases ?n) auto
    have "rev [1..<Suc (Suc m)] = Suc m # rev [1..<Suc m]" by simp
    with True pos m show ?thesis
      by (simp add: match_at_def whitespace_run_def Let_def del: upt_Suc)
  next
    case False
    with pos show ?thesis
      by (auto simp: match_at_def whitespace_run_def Let_def)
  qed
qed



lemma subst_whitespace_chars:
  "cur \<le> s \<Longrightarrow> (\<And>i. cur \<le> i \<Longrightarrow> i < s \<Longrightarrow> i < length t \<Longrightarrow> \<not> is_space (t ! i)) \<Longrightarrow>
   c \<in> set (subst_spans t repl cur (finditer_from whitespace_run t s)) \<Longrightarrow>
   is_space c \<Longrightarrow> c \<in> set repl"
proof (induction "Suc (length t) - s" arbitrary: s cur rule: less_induct)
  case less
  note sp = \<open>is_space c\<close>
  note mem = \<open>c \<in> set (subst_spans t repl cur (finditer_from whitespace_run t s))\<close>
  note nonsp = less.prems(2)
  show ?case
  proof (cases "length t < s")
    case True
    then have "finditer_from whitespace_run t s = []"
      by (subst finditer_from.simps) simp
    with mem have "c \<in> set (drop cur t)" by simp
    from set_drop_nth[OF this] obtain k where k: "cur \<le> k" "k < length t" "c = t ! k"
      by blast
    from k True have "k < s" by simp
    with k nonsp[of k] sp show ?thesis by simp
  next
    case inside: False
    show ?thesis
    proof (cases "s < length t \<and> is_space (t ! s)")
      case False
      have "match_at whitespace_run t s = None"
        using False by (simp add: match_at_whitespace_run)
      then have eq: "finditer_from whitespace_run t s = finditer_from whitespace_run t (Suc s)"
        using inside by (subst finditer_from.simps) simp
      have m: "Suc (length t) - Suc s < Suc (length t) - s"
        using inside by simp
      have c: "cur \<le> Suc s" using \<open>cur \<le> s\<close> by simp
      have n: "\<not> is_space (t ! i)" if "cur \<le> i" "i < Suc s" "i < length t" for i
      proof (cases "i = s")
        case True
        with that False show ?thesis by simp
      next
        case neq: False
        with that have "i < s" by simp
        with that nonsp[of i] show ?thesis by simp
      qed
      from mem eq have mem': "c \<in> set (subst_spans t repl cur (finditer_from whitespace_run t (Suc s)))"
        by simp
      show ?thesis
        by (rule less.hyps[OF m c n mem' sp])
    next
      case True
      define e where "e = s + length (takeWhile is_space (drop s t))"
      have "0 < length (takeWhile is_space (drop s t))"
        by (rule iffD2[OF takeWhile_drop_pos[of is_space s t] True])
      then have e: "s < e" by (simp add: e_def)
      have "match_at whitespace_run t s = Some (e, None)"
        using True by (simp add: match_at_whitespace_run e_def)
      then have eq: "finditer_from whitespace_run t s = (s, e, None) # finditer_from whitespace_run t e"
        using inside e by (subst finditer_from.simps) simp
      from mem have "c \<in> set (slice t cur s @ repl @ subst_spans t repl e (finditer_from whitespace_run t e))"
        unfolding eq by simp
      then consider "c \<in> set (slice t cur s)" | "c \<in> set repl"
        | "c \<in> set (subst_spans t repl e (finditer_from whitespace_run t e))"
        by (simp only: set_append Un_iff) blast
      then show ?thesis
      proof cases
        case 1
        from set_slice_nth[OF 1] obtain k where "cur \<le> k" "k < s" "k < length t" "c = t ! k"
          by blast
        with nonsp[of k] sp show ?thesis by simp
      next
        case 2
        then show ?thesis .
      next
        case 3
        have m: "Suc (length t) - e < Suc (length t) - s"
          using inside e by simp
        have n: "\<not> is_space (t ! i)" if "e \<le> i" "i < e" "i < length t" for i
          using that by simp
        show ?thesis
          by (rule less.hyps[OF m order_refl n 3 sp])
      qed
    qed
  qed
qed

lemma re_sub_whitespace_chars:
  "c \<in> set (re_sub whitespace_run repl t) \<Longrightarrow> is_space c \<Longrightarrow> c \<in> set repl"
  unfolding re_sub_def finditer_def
  by (rule subst_whitespace_chars[of 0 0 t c repl]) auto


lemma set_strip: "set (strip s) \<subseteq> set s"
  unfolding strip_def
  by (metis set_dropWhileD set_rev subsetI)

lemma is_space_newline: "is_space newline"
  by (simp add: is_space_def newline_def)

lemma normalize_text_no_newline: "newline \<notin> set (normalize_text raw)"
proof
  assume "newline \<in> set (normalize_text raw)"
  then have "newline \<in> set (re_sub whitespace_run '' '' raw)"
    unfolding normalize_text_def using set_strip by blast
  then have "newline \<in> set '' ''"
    using re_sub_whitespace_chars is_space_newline by blast
  then show False by (simp add: newline_def)
qed


lemma dropWhile_rev_dropWhile:
  "dropWhile P (rev (dropWhile P (rev (dropWhile P s)))) = rev (dropWhile P (rev (dropWhile P s)))"
proof -
  let ?u = "dropWhile P s"
  let ?v = "dropWhile P (rev ?u)"
  show ?thesis
  proof (cases "?v = []")
    case True
    then show ?thesis by (simp only: rev.simps dropWhile.simps)
  next
    case False
    have "takeWhile P (rev ?u) @ ?v = rev ?u" by simp
    then have "last ?v = last (rev ?u)" using False by (metis last_appendR)
    moreover have "?u \<noteq> []" using False by (cases "?u = []") simp_all
    ultimately have "last ?v = hd ?u" by (simp add: last_rev)
    moreover have "\<not> P (hd ?u)" using \<open>?u \<noteq> []\<close> by (rule hd_dropWhile)
    ultimately have "\<not> P (hd (rev ?v))" using False by (simp add: hd_rev)
    then show ?thesis by (simp add: dropWhile_eq_self_iff)
  qed
qed

lemma strip_idem: "strip (strip s) = strip s"
  unfolding strip_def
  by (simp add: dropWhile_rev_dropWhile)


lemma split_from_no_newline:
  "newline \<notin> set s \<Longrightarrow> split_from [newline, newline] acc s = [rev acc @ s]"
  by (induction s arbitrary: acc) auto

lemma py_split_no_newline:
  "newline \<notin> set s \<Longrightarrow> py_split s [newline, newline] = [s]"
  by (simp add: py_split_def split_from_no_newline)

lemma str_nat_1: "str_nat (Suc 0) = ''1''"
  by (subst str_nat.simps) (simp add: digit_char_def)

lemma strip_normalize_text: "strip (normalize_text raw) = normalize_text raw"
  by (simp add: normalize_text_def strip_idem)

lemma split_by_paragraphs_normalized:
  "split_by_paragraphs (normalize_text raw) page_num =
     (if 100 < length (normalize_text raw)
      then [mk_section page_num ''Section 1'' (normalize_text raw)] else [])"
  by (simp add: split_by_paragraphs_def py_split_no_newline normalize_text_no_newline
      strip_normalize_text str_nat_1 enumerate_eq_zip)

lemma split_into_sections_eq:
  "split_into_sections raw page_num =
     (if 100 < length (normalize_text raw)
      then [mk_section page_num ''Section 1'' (normalize_text raw)] else [])"
  by (simp add: split_into_sections_def Let_def find_boundaries_no_newline
      normalize_text_no_newline split_by_paragraphs_normalized)

lemma walk_boundaries_length:
  "s \<in> set (walk_boundaries t page_num current start bs) \<Longrightarrow> 100 < length (section_text s)"
  by (induction t page_num current start bs rule: walk_boundaries.induct)
     (auto simp: Let_def mk_section_def split: if_splits)

lemma split_by_paragraphs_texts:
  "map section_text (split_by_paragraphs t page_num) =
     take 5 (map strip (filter (\<lambda>p. 100 < length (strip p)) (py_split t [newline, newline])))"
proof -
  have "map section_text (map (\<lambda>(i, para). mk_section page_num (f i) para) (enumerate 0 xs)) = xs"
    for f :: "nat \<Rightarrow> string" and xs
    by (simp add: mk_section_def case_prod_unfold o_def)
  then show ?thesis
    by (simp add: split_by_paragraphs_def Let_def)
qed

lemma split_by_paragraphs_length:
  assumes "s \<in> set (split_by_paragraphs t page_num)"
  shows "100 < length (section_text s)"
proof -
  from assms have "section_text s \<in> set (map section_text (split_by_paragraphs t page_num))"
    by simp
  then have "section_text s \<in>
      set (map strip (filter (\<lambda>p. 100 < length (strip p)) (py_split t [newline, newline])))"
    unfolding split_by_paragraphs_texts by (rule in_set_takeD)
  then show ?thesis by auto
qed

lemma split_into_sections_length:
  "s \<in> set (split_into_sections raw page_num) \<Longrightarrow> 100 < length (section_text s)"
  by (auto simp: split_into_sections_def Let_def split: if_splits
      dest: walk_boundaries_length split_by_paragraphs_length)

lemma normalize_ex_page: "normalize_text ex_page = ex_normalized"
  by code_simp

lemma split_into_sections_ex_page:
  "split_into_sections ex_page 1 = [mk_section 1 ''Section 1'' ex_normalized]"
  by (simp add: split_into_sections_eq normalize_ex_page) (simp add: ex_normalized_def)

lemma walk_boundaries_example:
  "walk_boundaries ex_normalized 1 ''Introduction'' 0 [(0, ''INTRODUCTION'')] =
     [mk_section 1 ''INTRODUCTION'' ex_normalized]"
  by code_simp

lemma split_by_paragraphs_example:
  "split_by_paragraphs ex_paragraphs 1 = [mk_section 1 ''Section 1'' ex_normalized]"
  by code_simp


subsection \<open>Claims about the segmenter\<close>


text \<open>
  Claim C2. For every page text the normalised text holds no newline, so no heading
  pattern matches it, and segmentation returns the whole normalised page as one section
  titled \<^verbatim>\<open>Section 1\<close> when it is longer than 100 characters, and no section otherwise.
\<close>

theorem segmentation_single_section:
  "newline \<notin> set (normalize_text raw)
   \<and> find_boundaries (normalize_text raw) = []
   \<and> split_into_sections raw page_num =
       (if 100 < length (normalize_text raw)
        then [mk_section page_num ''Section 1'' (normalize_text raw)] else [])"
  using normalize_text_no_newline[of raw]
  by (simp add: find_boundaries_no_newline split_into_sections_eq)

text \<open>
  Claim C10. Every section that segmentation emits has a text of at least 100
  characters: on the whole function, on the walk over any list of boundaries, and on the
  paragraph split of any text. (A span shorter than that is hence never emitted.)
\<close>

theorem section_text_length:
  "(\<forall>s \<in> set (split_into_sections raw page_num). 100 \<le> length (section_text s))
   \<and> (\<forall>s \<in> set (walk_boundaries t page_num current start bs). 100 \<le> length (section_text s))
   \<and> (\<forall>s \<in> set (split_by_paragraphs t page_num). 100 \<le> length (section_text s))"
  using split_into_sections_length walk_boundaries_length split_by_paragraphs_length
  by (meson less_imp_le)

theorem section_text_length_witness:
  "mk_section 1 ''Section 1'' ex_normalized \<in> set (split_into_sections ex_page 1)
   \<and> mk_section 1 ''INTRODUCTION'' ex_normalized
       \<in> set (walk_boundaries ex_normalized 1 ''Introduction'' 0 [(0, ''INTRODUCTION'')])
   \<and> mk_section 1 ''Section 1'' ex_normalized \<in> set (split_by_paragraphs ex_paragraphs 1)
   \<and> 100 \<le> length (section_text (mk_section 1 ''Section 1'' ex_normalized))
   \<and> 100 \<le> length (section_text (mk_section 1 ''INTRODUCTION'' ex_normalized))"
proof -
  have a: "mk_section 1 ''Section 1'' ex_normalized \<in> set (split_into_sections ex_page 1)"
    unfolding split_into_sections_ex_page by simp
  have b: "mk_section 1 ''INTRODUCTION'' ex_normalized
       \<in> set (walk_boundaries ex_normalized 1 ''Introduction'' 0 [(0, ''INTRODUCTION'')])"
    unfolding walk_boundaries_example by simp
  have c: "mk_section 1 ''Section 1'' ex_normalized \<in> set (split_by_paragraphs ex_paragraphs 1)"
    unfolding split_by_paragraphs_example by simp
  from a b c
    section_text_length[of ex_page 1 ex_normalized "''Introduction''" 0 "[(0, ''INTRODUCTION'')]"]
    section_text_length[of ex_page 1 ex_paragraphs "''Introduction''" 0 "[]"]
  show ?thesis by blast
qed

section \<open>Properties of the ranker\<close>

lemma map_rank_enumerate:
  "map (\<lambda>(i, s). f i s) (enumerate 0 xs) = map (\<lambda>i. f i (xs ! i)) [0..<length xs]"
  by (rule nth_equalityI) (simp_all add: nth_enumerate_eq)

lemma ranks_fallback:
  "map Ranked.importance_rank (fallback_ranks sections) = [1..<Suc (length sections)]"
proof -
  have "map Ranked.importance_rank (fallback_ranks sections) = map Suc [0..<length sections]"
    by (simp add: fallback_ranks_def map_rank_enumerate annotate_def o_def)
  then show ?thesis by (simp add: map_Suc_upt)
qed

lemma ranks_assign:
  "map Ranked.importance_rank (assign_ranks xs) = [1..<Suc (length xs)]"
proof -
  have "map Ranked.importance_rank (assign_ranks xs) = map Suc [0..<length xs]"
    by (simp add: assign_ranks_def map_rank_enumerate o_def)
  then show ?thesis by (simp add: map_Suc_upt)
qed

lemma length_score_sections: "length (score_sections sims sections) = length sections"
  by (simp add: score_sections_def)

lemma length_sort_by_relevance: "length (sort_by_relevance xs) = length xs"
  by (simp add: sort_by_relevance_def)

lemma take_upt_from_1: "take m [1..<Suc n] = [1..<Suc (min m n)]"
proof (cases "m \<le> n")
  case True
  then have "take m [1..<Suc n] = [1..<1 + m]" by (intro take_upt) simp
  with True show ?thesis by (simp add: min_def)
next
  case False
  then show ?thesis by (simp add: min_def)
qed

lemma ranks_rank_or_fallback:
  "map Ranked.importance_rank (rank_or_fallback vec sections query) = [1..<Suc (length sections)]"
  unfolding rank_or_fallback_def Let_def
  by (simp only: ranks_fallback ranks_assign length_score_sections length_sort_by_relevance
      split: option.split if_split) simp

lemma length_rank_or_fallback:
  "length (rank_or_fallback vec sections query) = length sections"
proof -
  have "length (map Ranked.importance_rank (rank_or_fallback vec sections query)) =
        length [1..<Suc (length sections)]"
    by (simp only: ranks_rank_or_fallback)
  then show ?thesis by (simp only: length_map length_upt diff_Suc_1)
qed

lemma rank_sections_eq:
  "rank_sections_by_relevance vec sections p job =
     take 15 (rank_or_fallback vec sections (build_query p job))"
proof (cases "sections = []")
  case True
  have "length (rank_or_fallback vec [] (build_query p job)) = 0"
    by (simp only: length_rank_or_fallback list.size)
  with True show ?thesis
    by (simp add: rank_sections_by_relevance_def)
next
  case False
  then show ?thesis
    by (simp add: rank_sections_by_relevance_def Let_def)
qed

lemma ranks_of_ranking:
  "map Ranked.importance_rank (rank_sections_by_relevance vec sections p job) =
     [1..<Suc (min 15 (length sections))]"
  by (simp only: rank_sections_eq take_map[symmetric] ranks_rank_or_fallback take_upt_from_1)

lemma length_ranking:
  "length (rank_sections_by_relevance vec sections p job) = min 15 (length sections)"
  by (simp only: rank_sections_eq length_take length_rank_or_fallback min.commute)

lemma nth_fallback_ranks:
  "i < length sections \<Longrightarrow>
   fallback_ranks sections ! i = annotate (sections ! i) (1 / real (i + 1)) (i + 1)"
  by (simp add: fallback_ranks_def nth_enumerate_eq)

lemma rank_or_fallback_None:
  "vec (map section_text sections @ [query]) = None \<Longrightarrow>
   rank_or_fallback vec sections query = fallback_ranks sections"
  by (simp add: rank_or_fallback_def)







lemma py_in_iff: "py_in sub s \<longleftrightarrow> (\<exists>u v. s = u @ sub @ v)"
proof (induction s)
  case Nil
  then show ?case by auto
next
  case (Cons c cs)
  have "(\<exists>u v. c # cs = u @ sub @ v) \<longleftrightarrow> prefix sub (c # cs) \<or> (\<exists>u v. cs = u @ sub @ v)"
  proof
    assume "\<exists>u v. c # cs = u @ sub @ v"
    then obtain u v where uv: "c # cs = u @ sub @ v" by blast
    show "prefix sub (c # cs) \<or> (\<exists>u v. cs = u @ sub @ v)"
    proof (cases u)
      case Nil
      with uv show ?thesis by (auto simp: prefix_def)
    next
      case (Cons a u')
      with uv have "cs = u' @ sub @ v" by simp
      then show ?thesis by blast
    qed
  next
    assume "prefix sub (c # cs) \<or> (\<exists>u v. cs = u @ sub @ v)"
    then show "\<exists>u v. c # cs = u @ sub @ v"
    proof
      assume "prefix sub (c # cs)"
      then obtain v where "c # cs = sub @ v" by (auto simp: prefix_def)
      then have "c # cs = [] @ sub @ v" by simp
      then show ?thesis by blast
    next
      assume "\<exists>u v. cs = u @ sub @ v"
      then obtain u v where "cs = u @ sub @ v" by blast
      then have "c # cs = (c # u) @ sub @ v" by simp
      then show ?thesis by blast
    qed
  qed
  with Cons show ?case by simp
qed


lemma foldl_boost:
  "foldl (\<lambda>b term. if P term then b + c else b) b0 terms =
     b0 + c * real (length (filter P terms))"
  for c :: real
  by (induction terms arbitrary: b0) (simp_all add: algebra_simps)

lemma boost_of_eq:
  "boost_of s =
     0.1 * real (length (filter (\<lambda>term. py_in term (lower (section_text s))) travel_boost_terms))
     + 0.05 * real (length (filter (\<lambda>term. py_in term (lower (section_text s))) group_boost_terms))
     + (if list_ex (\<lambda>term. py_in term (lower (Section.section_title s))) title_boost_terms
        then 0.2 else 0)"
  by (simp add: boost_of_def Let_def foldl_boost)

lemmas text_eval = lower_def lower_char_def upper_letters_def lower_letters_def
lemmas term_lists = travel_boost_terms_def group_boost_terms_def title_boost_terms_def

lemma join_travel_keywords:
  "join '' '' travel_keywords =
     ''itinerary activities attractions restaurants hotels transportation budget schedule''"
  by (simp add: travel_keywords_def)

lemma boost_of_ex_hotel: "boost_of ex_hotel = 0.1"
  by (simp add: boost_of_eq ex_hotel_def mk_section_def text_eval term_lists)


lemma boost_of_ex_plain: "boost_of ex_plain = 0"
  by (simp add: boost_of_eq ex_plain_def mk_section_def text_eval term_lists)

lemma boost_of_ex_other: "boost_of ex_other = 0"
  by (simp add: boost_of_eq ex_other_def mk_section_def text_eval term_lists)


lemma score_sections_example:
  "score_sections [0, 0, 0] [ex_plain, ex_hotel, ex_other] =
     [annotate ex_plain 0 0, annotate ex_hotel (1 / 10) 0, annotate ex_other 0 0]"
  by (simp add: score_sections_def final_score_def boost_of_ex_plain boost_of_ex_hotel
      boost_of_ex_other)

lemma rank_example:
  "rank_sections_by_relevance zero_vectorizer [ex_plain, ex_hotel, ex_other] ex_chef ''cook'' =
     [annotate ex_hotel (1 / 10) 1, annotate ex_plain 0 2, annotate ex_other 0 3]"
  by (simp add: rank_sections_eq rank_or_fallback_def zero_vectorizer_def score_sections_example
      sort_by_relevance_def assign_ranks_def annotate_def)

subsection \<open>Claims about the ranker\<close>

text \<open>
  Claim C3, as amended. The travel keywords are appended to the expertise exactly when
  the lower-cased role contains \<^verbatim>\<open>travel\<close> or \<^verbatim>\<open>planner\<close>; the expertise is not consulted.
  Otherwise the query is built from the fields as they are.
\<close>

theorem travel_keywords_by_role:
  "build_query p job =
     get_default (role p) [] @ '' '' @
     (if (\<exists>u v. lower (get_default (role p) []) = u @ ''travel'' @ v)
         \<or> (\<exists>u v. lower (get_default (role p) []) = u @ ''planner'' @ v)
      then get_default (expertise p) [] @
           '' itinerary activities attractions restaurants hotels transportation budget schedule''
      else get_default (expertise p) [])
     @ '' '' @ join '' '' (get_default (focus_areas p) []) @ '' '' @ job"
  unfolding build_query_def Let_def join_travel_keywords py_in_iff[symmetric]
  by simp

theorem travel_keywords_by_role_witness:
  "build_query ex_planner ''Plan a trip'' =
     ''Travel Planner  itinerary activities attractions restaurants hotels transportation budget schedule  Plan a trip''
   \<and> build_query ex_chef ''cook'' = ''Chef travel writer  cook''"
proof -
  have a: "py_in ''travel'' (lower ''Travel Planner'')" by (simp add: text_eval)
  have b: "\<not> py_in ''travel'' (lower ''Chef'')" "\<not> py_in ''planner'' (lower ''Chef'')"
    by (simp_all add: text_eval)
  show ?thesis
    using a b travel_keywords_by_role[of ex_planner "''Plan a trip''"]
      travel_keywords_by_role[of ex_chef "''cook''"]
    by (simp add: py_in_iff ex_planner_def ex_chef_def get_default_def)
qed

text \<open>
  Claim C3 as stated fails: the expertise of \<^const>\<open>ex_chef\<close> contains \<^verbatim>\<open>travel\<close>, and
  the query carries no travel keywords.
\<close>

theorem expertise_not_consulted:
  "py_in ''travel'' (lower (get_default (expertise ex_chef) []))
   \<and> build_query ex_chef ''cook'' = ''Chef travel writer  cook''
   \<and> build_query ex_chef ''cook'' \<noteq>
       ''Chef travel writer itinerary activities attractions restaurants hotels transportation budget schedule  cook''"
  by (simp add: build_query_def ex_chef_def get_default_def text_eval)




text \<open>
  Claim C7. When vectorisation fails on a non-empty list of sections, the result is the
  first 15 sections in input order, the \<open>i\<close>-th with score \<open>1/(i+1)\<close> and rank \<open>i+1\<close>.
\<close>

theorem fallback_ranking:
  assumes "sections \<noteq> []"
    and "vec (map section_text sections @ [build_query p job]) = None"
  shows "length (rank_sections_by_relevance vec sections p job) = min 15 (length sections)
    \<and> (\<forall>i < min 15 (length sections).
          rank_sections_by_relevance vec sections p job ! i =
            annotate (sections ! i) (1 / real (i + 1)) (i + 1))"
proof (intro conjI allI impI)
  show "length (rank_sections_by_relevance vec sections p job) = min 15 (length sections)"
    by (rule length_ranking)
next
  fix i assume i: "i < min 15 (length sections)"
  have "rank_sections_by_relevance vec sections p job = take 15 (fallback_ranks sections)"
    using assms(2) by (simp only: rank_sections_eq rank_or_fallback_None)
  with i show "rank_sections_by_relevance vec sections p job ! i =
            annotate (sections ! i) (1 / real (i + 1)) (i + 1)"
    by (simp add: nth_fallback_ranks)
qed

theorem fallback_ranking_witness:
  "length (rank_sections_by_relevance failing_vectorizer [ex_plain, ex_hotel] ex_chef ''cook'') = 2
   \<and> rank_sections_by_relevance failing_vectorizer [ex_plain, ex_hotel] ex_chef ''cook'' ! 0
       = annotate ex_plain 1 1
   \<and> rank_sections_by_relevance failing_vectorizer [ex_plain, ex_hotel] ex_chef ''cook'' ! 1
       = annotate ex_hotel (1 / 2) 2"
proof -
  have ne: "[ex_plain, ex_hotel] \<noteq> []" by simp
  have fails: "failing_vectorizer (map section_text [ex_plain, ex_hotel] @ [build_query ex_chef ''cook'']) = None"
    by (simp add: failing_vectorizer_def)
  note inst = fallback_ranking[of "[ex_plain, ex_hotel]" failing_vectorizer ex_chef "''cook''", OF ne fails]
  from inst have len: "length (rank_sections_by_relevance failing_vectorizer [ex_plain, ex_hotel] ex_chef ''cook'') = 2"
    by simp
  from inst have nth: "\<And>i. i < 2 \<Longrightarrow>
      rank_sections_by_relevance failing_vectorizer [ex_plain, ex_hotel] ex_chef ''cook'' ! i
        = annotate ([ex_plain, ex_hotel] ! i) (1 / real (i + 1)) (i + 1)"
    by simp
  from len nth[of 0] nth[of 1] show ?thesis by (simp add: numeral_2_eq_2)
qed



text \<open>
  Claim C9. The ranker returns at most 15 sections, and their ranks are \<open>1\<close>, \<open>2\<close>, ...
  up to the smaller of 15 and the number of sections, in this order, whatever the
  vectoriser does.
\<close>

theorem ranking_bound:
  "length (rank_sections_by_relevance vec sections p job) \<le> 15
   \<and> map Ranked.importance_rank (rank_sections_by_relevance vec sections p job) =
       [1..<Suc (min 15 (length sections))]"
  by (simp only: length_ranking ranks_of_ranking) simp

section \<open>Properties of the refiner\<close>

lemma job_terms_example: "job_terms ''Plan a trip'' = [''plan'', ''trip'']"
  by code_simp

lemma sentences_of_example:
  "sentences_of ex_guide =
     [''The museum opens early every morning'', ''Tickets are sold at the main gate'',
      ''Guided walks start from the old square'']"
  by code_simp

lemma scores_example:
  "map (sentence_score [''plan'', ''trip'']) (sentences_of ex_guide) = [0, 0, 0]"
  unfolding sentences_of_example by code_simp

lemma top_sentences_example:
  "top_sentences [''plan'', ''trip''] ex_guide = 
     [''The museum opens early every morning'', ''Tickets are sold at the main gate'',
      ''Guided walks start from the old square'']"
  unfolding top_sentences_def sentences_of_example by code_simp

lemma refined_text_example:
  "refined_text_of [''plan'', ''trip''] ex_guide = ex_guide"
  unfolding refined_text_of_def top_sentences_example ex_guide_def by code_simp

text \<open>
  The fallback to the first two sentences is never taken: the scored list holds every
  sentence, with score 0 or more, so its first three are empty only if there is no
  sentence at all.
\<close>

lemma top_sentences_no_fallback:
  "top_sentences terms t =
     map snd (take 3 (sort_key (\<lambda>x. - int (fst x))
        (map (\<lambda>sentence. (sentence_score terms sentence, sentence)) (sentences_of t))))"
proof (cases "sentences_of t = []")
  case True
  then show ?thesis by (simp add: top_sentences_def)
next
  case False
  let ?sorted = "sort_key (\<lambda>x. - int (fst x))
        (map (\<lambda>sentence. (sentence_score terms sentence, sentence)) (sentences_of t))"
  have "length ?sorted = length (sentences_of t)" by simp
  with False have "?sorted \<noteq> []" by (metis length_0_conv)
  then have "map snd (take 3 ?sorted) \<noteq> []" by simp
  then show ?thesis by (simp add: top_sentences_def Let_def)
qed

subsection \<open>Claims about the refiner\<close>

text \<open>
  Claim C5. When no sentence scores, the refiner is to fall back to the first two
  sentences. The text \<^const>\<open>ex_guide\<close> has three sentences longer than 20 characters, all
  of score 0 for the job \<^verbatim>\<open>Plan a trip\<close>; the program keeps all three, in their order,
  because its fallback test \<^verbatim>\<open>not top_sentences and sentences\<close> cannot succeed.
\<close>

theorem three_zero_score_sentences_kept:
  "map (sentence_score (job_terms ''Plan a trip'')) (sentences_of ex_guide) = [0, 0, 0]
   \<and> top_sentences (job_terms ''Plan a trip'') ex_guide = sentences_of ex_guide
   \<and> top_sentences (job_terms ''Plan a trip'') ex_guide \<noteq> take 2 (sentences_of ex_guide)
   \<and> refined_text_of (job_terms ''Plan a trip'') ex_guide = ex_guide"
  unfolding job_terms_example scores_example top_sentences_example refined_text_example
  by (simp add: sentences_of_example)

section \<open>Properties of the orchestrator\<close>

text \<open>
  Without \<^verbatim>\<open>challenge_info\<close> a job given as an object is passed on as it is, and the
  refiner's \<^verbatim>\<open>job_description.lower()\<close> raises, whatever the documents hold.
\<close>

lemma old_format_object_fails:
  "Config.challenge_info config = None \<Longrightarrow> Config.job_to_be_done config = JObj entries \<Longrightarrow>
   process_documents fs vec py_str config = error_output (AttributeError ''lower'')"
  by (simp add: process_documents_def resolve_job_def refine_resolved_def Let_def)

subsection \<open>Claims about the orchestrator\<close>

text \<open>
  Claim C4. A job given as an object with a \<^verbatim>\<open>task\<close> field is to be accepted whether or
  not \<^verbatim>\<open>challenge_info\<close> is present. Without \<^verbatim>\<open>challenge_info\<close> the program does not
  resolve the object: processing ends in the error result, with an empty job
  description in the metadata. With \<^verbatim>\<open>challenge_info\<close> the same job is resolved to its
  task string.
\<close>

theorem task_object_without_challenge_info:
  "resolve_job ex_config_old = Inr (JObj [(''task'', JStr ''Plan a trip'')])
   \<and> process_documents fs vec py_str ex_config_old = error_output (AttributeError ''lower'')
   \<and> resolve_job ex_config_new = Inr (JStr ''Plan a trip'')
   \<and> process_documents fs vec py_str ex_config_new =
       \<lparr>metadata = \<lparr>input_documents = [], persona = ex_planner,
                    job_to_be_done = JStr ''Plan a trip'',
                    challenge_info = Some (JObj [(''challenge_id'', JStr ''round_1b'')]),
                    error = None\<rparr>,
        extracted_sections = [], sub_section_analysis = []\<rparr>"
  by (simp add: process_documents_def resolve_job_def refine_resolved_def rank_resolved_def
      rank_sections_by_relevance_def refine_sections_def Let_def ex_config_old_def ex_config_new_def)

end
